theory Spec2Isabelle
  imports Complex_Main "HOL-Library.Sublist"
begin

section \<open>The hardware-link and job-execution core of the camera overlay (Code1.jsx)\<close>

text \<open>
  The component \<open>App\<close> keeps its state in React state cells. The model collects the
  cells the hardware-link subsystem reads or writes in one record; every setter call of
  the source is a record update, applied in the order the source issues it (all setter
  calls are absolute values, except \<open>setLogs\<close> and \<open>setPhotos\<close>, which are functional
  updates, so the batched result is the sequential one).

  JavaScript numbers are modelled as reals; strings as lists of characters.
\<close>

subsection \<open>Data\<close>

type_synonym number = real

text \<open>\<open>hardwareStatus\<close>, line 40: DISCONNECTED, AUTHENTICATING, READY, BUSY.\<close>

datatype status = DISCONNECTED | AUTHENTICATING | READY | BUSY

text \<open>
  A JavaScript value as far as \<open>ibmAccessToken\<close> can hold one: \<open>null\<close> at start, then
  whatever \<open>authData.id\<close> evaluates to. \<open>JObject\<close> stands for any object or array.
\<close>

datatype js_value = JNull | JUndefined | JStr string | JNum number | JBool bool | JObject

text \<open>
  A log entry, lines 56 and 61-65. \<open>details\<close> is \<open>None\<close> for \<open>null\<close> (the default of
  \<open>addLog\<close>) and for the initial entry, which has no such field.
\<close>

record log_entry =
  entry_id :: number
  entry_type :: string
  msg :: string
  details :: "string option"
  time :: string

text \<open>The object \<open>meta\<close> of \<open>captureArtifact\<close>, lines 209-216.\<close>

record artifact =
  art_id :: number
  url :: string
  mode :: string
  bits :: string
  weight :: string
  art_time :: string

record app_state =
  ibmToken :: string
  ibmAccessToken :: js_value
  hardwareStatus :: status
  photos :: "artifact list"
  localRegister :: "nat list"
  qubitWeight :: number
  lastBitstring :: string
  activeMode :: string
  isTeleporting :: bool
  logs :: "log_entry list"

definition BIT_COUNT :: nat where
  "BIT_COUNT = 10"

definition PARITY_KEY :: string where
  "PARITY_KEY = ''00**11--1''"

text \<open>The values given to \<open>useState\<close>, lines 38-56.\<close>

definition initial :: app_state where
  "initial =
     \<lparr> ibmToken = [],
       ibmAccessToken = JNull,
       hardwareStatus = DISCONNECTED,
       photos = [],
       localRegister = replicate BIT_COUNT 0,
       qubitWeight = 0.5,
       lastBitstring = ''0000000000'',
       activeMode = ''STANDARD'',
       isTeleporting = False,
       logs = [\<lparr> entry_id = 0, entry_type = ''SEC'',
                 msg = ''Quantum Kernel Locked. Enter PIN.'',
                 details = None, time = ''INIT'' \<rparr>] \<rparr>"

subsection \<open>Logging\<close>

text \<open>
  What one call of \<open>addLog\<close> reads from its environment: \<open>Date.now()\<close>,
  \<open>Math.random()\<close> and \<open>new Date().toLocaleTimeString()\<close>.
\<close>

record stamp =
  date_now :: number
  math_random :: number
  locale_time :: string

text \<open>\<open>str.split(' ')[0]\<close>: the text before the first space.\<close>

definition split_first :: "string \<Rightarrow> string" where
  "split_first str = takeWhile (\<lambda>c. c \<noteq> CHR '' '') str"

definition new_entry :: "stamp \<Rightarrow> string \<Rightarrow> string \<Rightarrow> string option \<Rightarrow> log_entry" where
  "new_entry st ty m d =
     \<lparr> entry_id = date_now st + math_random st,
       entry_type = ty, msg = m, details = d,
       time = split_first (locale_time st) \<rparr>"

text \<open>The updater passed to \<open>setLogs\<close>: \<open>[entry, ...prev].slice(0, 30)\<close>.\<close>

definition push_log :: "log_entry \<Rightarrow> log_entry list \<Rightarrow> log_entry list" where
  "push_log e prev = take 30 (e # prev)"

definition addLog :: "stamp \<Rightarrow> string \<Rightarrow> string \<Rightarrow> string option \<Rightarrow> app_state \<Rightarrow> app_state" where
  "addLog st ty m d s = s\<lparr>logs := push_log (new_entry st ty m d) (logs s)\<rparr>"

text \<open>The Clear button, line 369: \<open>setLogs([])\<close>.\<close>

definition clearLogs :: "app_state \<Rightarrow> app_state" where
  "clearLogs s = s\<lparr>logs := []\<rparr>"

text \<open>
  A sequence of \<open>addLog\<close> calls, first call first; each call comes with the stamp it
  reads and its three arguments.
\<close>

type_synonym log_call = "stamp \<times> string \<times> string \<times> string option"

fun addLog_call :: "log_call \<Rightarrow> app_state \<Rightarrow> app_state" where
  "addLog_call (st, ty, m, d) s = addLog st ty m d s"

fun addLogs :: "log_call list \<Rightarrow> app_state \<Rightarrow> app_state" where
  "addLogs [] s = s"
| "addLogs (c # cs) s = addLogs cs (addLog_call c s)"

fun entry_of :: "log_call \<Rightarrow> log_entry" where
  "entry_of (st, ty, m, d) = new_entry st ty m d"

subsection \<open>Numbers and their decimal text\<close>

text \<open>
  JavaScript's arithmetic is IEEE double arithmetic; the model computes with the exact
  real values instead. The numbers the program rounds (1/pi^2 to 8 places and
  k/10 * 0.89867882 to 4 places) lie more than 1e-9 away from every rounding tie, far
  beyond the error of a few double operations, so the printed digits agree.
\<close>

definition digit_char :: "nat \<Rightarrow> char" where
  "digit_char d = ''0123456789'' ! d"

definition digit_value :: "char \<Rightarrow> nat" where
  "digit_value c = of_char c - 48"

text \<open>\<open>String(n)\<close> for a natural number \<open>n\<close>, as template literals and \<open>join\<close> apply it.\<close>

fun show_nat :: "nat \<Rightarrow> string" where
  "show_nat n =
     (if n < 10 then [digit_char n]
      else show_nat (n div 10) @ [digit_char (n mod 10)])"

declare show_nat.simps [simp del]

definition pad_zeros :: "nat \<Rightarrow> string \<Rightarrow> string" where
  "pad_zeros f ds = replicate (f - length ds) CHR ''0'' @ ds"

text \<open>
  \<open>x.toFixed(f)\<close> (ECMAScript, Number.prototype.toFixed, for numbers below 1e21): the
  sign, then the integer \<open>n\<close> nearest to \<open>\<bar>x\<bar> * 10 ^ f\<close> (the larger one on a tie),
  written with its last \<open>f\<close> digits after the point.
\<close>

definition toFixed :: "nat \<Rightarrow> number \<Rightarrow> string" where
  "toFixed f x =
     (let n = nat (round (\<bar>x\<bar> * 10 ^ f));
          a = show_nat (n div 10 ^ f);
          b = pad_zeros f (show_nat (n mod 10 ^ f))
      in (if x < 0 then ''-'' else []) @ a @ (if f = 0 then [] else ''.'' @ b))"

definition digits_value :: "string \<Rightarrow> nat" where
  "digits_value ds = foldl (\<lambda>a c. 10 * a + digit_value c) 0 ds"

definition unsigned_value :: "string \<Rightarrow> number" where
  "unsigned_value str =
     (let a = takeWhile (\<lambda>c. c \<noteq> CHR ''.'') str;
          b = drop 1 (dropWhile (\<lambda>c. c \<noteq> CHR ''.'') str)
      in real (digits_value a) + real (digits_value b) / 10 ^ length b)"

text \<open>
  \<open>parseFloat(str)\<close>, and the conversion that \<open>1 - str\<close> applies to \<open>str\<close>, on decimal
  text of the shape \<open>toFixed\<close> produces (an optional sign, digits, an optional point and
  digits). The program converts no other text; on other text JavaScript yields \<open>NaN\<close>,
  which the model does not represent.
\<close>

definition parseFloat :: "string \<Rightarrow> number" where
  "parseFloat str =
     (case str of
        [] \<Rightarrow> 0
      | c # rest \<Rightarrow> if c = CHR ''-'' then - unsigned_value rest else unsigned_value str)"

text \<open>\<open>Math.PI\<close> is the double nearest to \<open>pi\<close>: 884279719003555 / 2^48.\<close>

definition Math_PI :: number where
  "Math_PI = 884279719003555 / 281474976710656"

text \<open>Line 18: \<open>(1 / Math.pow(Math.PI, 2)).toFixed(8)\<close>, a string.\<close>

definition PI_SQUARED_INV :: string where
  "PI_SQUARED_INV = toFixed 8 (1 / Math_PI ^ 2)"

subsection \<open>Register and weight\<close>

text \<open>
  \<open>Array.from({ length: BIT_COUNT }, () => Math.random() > 0.5 ? 1 : 0)\<close>; \<open>rnd i\<close> is
  the value of the \<open>i\<close>-th call of \<open>Math.random()\<close>.
\<close>

definition random_bits :: "(nat \<Rightarrow> number) \<Rightarrow> nat list" where
  "random_bits rnd = map (\<lambda>i. if rnd i > 0.5 then 1 else 0) [0..<BIT_COUNT]"

text \<open>\<open>bits.join("")\<close>.\<close>

definition join_bits :: "nat list \<Rightarrow> string" where
  "join_bits bs = concat (map show_nat bs)"

text \<open>
  The weight both timer callbacks publish (lines 124 and 128, 146 and 149):
  \<open>weight = bits.reduce((a, b) => a + b, 0) / BIT_COUNT\<close>, then
  \<open>parseFloat((weight * (1 - PI_SQUARED_INV)).toFixed(4))\<close>.
\<close>

definition deriveWeight :: "nat list \<Rightarrow> number" where
  "deriveWeight bs =
     (let weight = real (sum_list bs) / real BIT_COUNT
      in parseFloat (toFixed 4 (weight * (1 - parseFloat PI_SQUARED_INV))))"

subsection \<open>Job execution\<close>

text \<open>
  The two callbacks handed to \<open>setTimeout\<close>: the one of \<open>executeRealTeleport\<close> (3000 ms)
  and the one of \<open>runLocalSimulation\<close> (1500 ms).
\<close>

datatype timer = Teleport_Resolve | Local_Collapse

text \<open>Lines 121-133, the body of the 3000 ms callback.\<close>

definition teleport_resolve :: "(nat \<Rightarrow> number) \<Rightarrow> stamp \<Rightarrow> app_state \<Rightarrow> app_state" where
  "teleport_resolve rnd st s =
     (let bs = random_bits rnd;
          bitstring = join_bits bs;
          s1 = s\<lparr>localRegister := bs\<rparr>;
          s2 = s1\<lparr>lastBitstring := bitstring\<rparr>;
          s3 = s2\<lparr>qubitWeight := deriveWeight bs\<rparr>;
          s4 = s3\<lparr>hardwareStatus := READY\<rparr>;
          s5 = s4\<lparr>isTeleporting := False\<rparr>
      in addLog st ''CORE'' (''Teleportation Resolved: '' @ bitstring) None s5)"

text \<open>Lines 144-152, the body of the 1500 ms callback.\<close>

definition local_collapse :: "(nat \<Rightarrow> number) \<Rightarrow> stamp \<Rightarrow> app_state \<Rightarrow> app_state" where
  "local_collapse rnd st s =
     (let bs = random_bits rnd;
          s1 = s\<lparr>localRegister := bs\<rparr>;
          s2 = s1\<lparr>lastBitstring := join_bits bs\<rparr>;
          s3 = s2\<lparr>qubitWeight := deriveWeight bs\<rparr>;
          s4 = s3\<lparr>isTeleporting := False\<rparr>
      in addLog st ''SYS'' ''Local Registry Collapsed.'' None s4)"

fun fire :: "timer \<Rightarrow> (nat \<Rightarrow> number) \<Rightarrow> stamp \<Rightarrow> app_state \<Rightarrow> app_state" where
  "fire Teleport_Resolve rnd st s = teleport_resolve rnd st s"
| "fire Local_Collapse rnd st s = local_collapse rnd st s"

text \<open>
  How a call of \<open>setTimeout\<close> ends: the callback is scheduled, or the call throws. In
  \<open>executeRealTeleport\<close> the call is the only statement of the \<open>try\<close> block, so a throw
  runs the \<open>catch\<close> block; in \<open>runLocalSimulation\<close> nothing catches it.
\<close>

datatype timeout_outcome = Scheduled | Thrown

text \<open>
  \<open>runLocalSimulation\<close>, lines 142-153: the state when it ends, and the callback it has
  scheduled. When \<open>setTimeout\<close> throws, the exception leaves the function with
  \<open>setIsTeleporting(true)\<close> done and nothing scheduled.
\<close>

definition runLocalSimulation :: "timeout_outcome \<Rightarrow> app_state \<Rightarrow> app_state \<times> timer option" where
  "runLocalSimulation outcome s =
     (let s1 = s\<lparr>isTeleporting := True\<rparr>
      in case outcome of
           Scheduled \<Rightarrow> (s1, Some Local_Collapse)
         | Thrown \<Rightarrow> (s1, None))"

text \<open>
  \<open>executeRealTeleport\<close>, lines 107-140. Nothing is awaited, so the call ends (and its
  promise settles) as soon as the callback is scheduled. The result is the state at
  that moment and the scheduled callback, if any. \<open>clk i\<close> is the stamp the \<open>i\<close>-th
  \<open>addLog\<close> call of this invocation reads. On the local path an exception of
  \<open>runLocalSimulation\<close> passes through uncaught (the promise rejects); the setter calls
  made before it stay.
\<close>

definition executeRealTeleport ::
  "(nat \<Rightarrow> stamp) \<Rightarrow> timeout_outcome \<Rightarrow> app_state \<Rightarrow> app_state \<times> timer option" where
  "executeRealTeleport clk outcome s =
     (if hardwareStatus s \<noteq> READY then
        let s1 = addLog (clk 0) ''WARN'' ''Using Local Simulation (No IBM Link).'' None s
        in runLocalSimulation outcome s1
      else
        let s1 = s\<lparr>isTeleporting := True\<rparr>;
            s2 = s1\<lparr>hardwareStatus := BUSY\<rparr>;
            s3 = addLog (clk 0) ''QASM'' (''Zenith Key Active: '' @ PARITY_KEY) None s2
        in case outcome of
             Scheduled \<Rightarrow> (s3, Some Teleport_Resolve)
           | Thrown \<Rightarrow>
               let s4 = s3\<lparr>isTeleporting := False\<rparr>;
                   s5 = s4\<lparr>hardwareStatus := READY\<rparr>
               in (addLog (clk 1) ''ERR'' ''Job Pipeline Interrupted.'' None s5, None))"

text \<open>Whether the call ends with an uncaught exception instead of returning.\<close>

definition executeRealTeleport_rejects :: "timeout_outcome \<Rightarrow> app_state \<Rightarrow> bool" where
  "executeRealTeleport_rejects outcome s = (hardwareStatus s \<noteq> READY \<and> outcome = Thrown)"

text \<open>
  One job from the call to the end of its callback, with nothing else running in
  between: \<open>executeRealTeleport\<close>, then the callback it scheduled (its \<open>addLog\<close>
  call reads the stamp \<open>clk 2\<close>).
\<close>

definition job_completed ::
  "(nat \<Rightarrow> stamp) \<Rightarrow> timeout_outcome \<Rightarrow> (nat \<Rightarrow> number) \<Rightarrow> app_state \<Rightarrow> app_state" where
  "job_completed clk outcome rnd s =
     (case executeRealTeleport clk outcome s of
        (s1, None) \<Rightarrow> s1
      | (s1, Some t) \<Rightarrow> fire t rnd (clk 2) s1)"

text \<open>The same for a call of \<open>runLocalSimulation\<close> alone.\<close>

definition local_job_completed ::
  "timeout_outcome \<Rightarrow> (nat \<Rightarrow> number) \<Rightarrow> stamp \<Rightarrow> app_state \<Rightarrow> app_state" where
  "local_job_completed outcome rnd st s =
     (case runLocalSimulation outcome s of
        (s1, None) \<Rightarrow> s1
      | (s1, Some t) \<Rightarrow> fire t rnd st s1)"

subsection \<open>Authentication\<close>

text \<open>
  What \<open>await response.json()\<close> followed by \<open>authData.id\<close> yields when the response is
  ok: the body is not JSON (\<open>json()\<close> rejects), it is \<open>null\<close> (reading \<open>.id\<close> throws), or
  it is a value whose \<open>id\<close> property evaluates to the given value (\<open>JUndefined\<close> when
  there is no such property).
\<close>

datatype auth_data = Json_Unparsable | Json_Null | Json_With_Id js_value

text \<open>
  How the \<open>fetch\<close> of \<open>connectToIBM\<close> ends: it rejects (network, CORS), or it resolves
  with \<open>response.ok\<close>, or with another status code and the result of \<open>response.text()\<close>
  (\<open>None\<close> when reading the body rejects).
\<close>

datatype fetch_outcome =
    Fetch_Failed
  | Response_Ok auth_data
  | Response_Not_Ok nat "string option"

text \<open>The \<open>catch\<close> block, lines 98-103.\<close>

definition connect_catch :: "(nat \<Rightarrow> stamp) \<Rightarrow> app_state \<Rightarrow> app_state" where
  "connect_catch clk s =
     (let s1 = s\<lparr>hardwareStatus := DISCONNECTED\<rparr>;
          s2 = addLog (clk 1) ''ERR'' ''IBM Bridge Blocked (CORS/Network)'' None s1
      in addLog (clk 2) ''DEBUG'' ''Browser blocked cross-origin request to IBM Servers.''
           None s2)"

text \<open>
  Lines 70-86, up to the \<open>await\<close>: the state when \<open>connectToIBM\<close> suspends or returns,
  and the \<open>apiToken\<close> of the request it has sent, if any.
\<close>

definition connectToIBM_begin :: "(nat \<Rightarrow> stamp) \<Rightarrow> app_state \<Rightarrow> app_state \<times> string option" where
  "connectToIBM_begin clk s =
     (if ibmToken s = [] then
        (addLog (clk 0) ''ERR'' ''Qiskit Token Required.'' None s, None)
      else
        let s1 = s\<lparr>hardwareStatus := AUTHENTICATING\<rparr>;
            s2 = addLog (clk 0) ''IBM'' ''Initiating REST Handshake...'' None s1
        in (s2, Some (ibmToken s)))"

text \<open>
  Lines 88-103, from the \<open>await\<close> on. With a string \<open>id\<close> the success branch completes.
  With any other \<open>id\<close> the two setters have run when \<open>authData.id.substring\<close> throws, and
  the \<open>catch\<close> block follows. \<open>substring(0, k)\<close> is \<open>take k\<close>.
\<close>

definition connectToIBM_resume :: "(nat \<Rightarrow> stamp) \<Rightarrow> fetch_outcome \<Rightarrow> app_state \<Rightarrow> app_state" where
  "connectToIBM_resume clk r s =
     (case r of
        Fetch_Failed \<Rightarrow> connect_catch clk s
      | Response_Ok Json_Unparsable \<Rightarrow> connect_catch clk s
      | Response_Ok Json_Null \<Rightarrow> connect_catch clk s
      | Response_Ok (Json_With_Id v) \<Rightarrow>
          let s1 = s\<lparr>ibmAccessToken := v\<rparr>;
              s2 = s1\<lparr>hardwareStatus := READY\<rparr>
          in (case v of
                JStr i \<Rightarrow>
                  addLog (clk 1) ''IBM'' ''Authentication Successful.''
                    (Some (''Access_ID: '' @ take 8 i @ ''...'')) s2
              | _ \<Rightarrow> connect_catch clk s2)
      | Response_Not_Ok code None \<Rightarrow> connect_catch clk s
      | Response_Not_Ok code (Some errText) \<Rightarrow>
          let s1 = addLog (clk 1) ''ERR'' (''IBM Rejected Token ['' @ show_nat code @ '']'')
                     (Some (take 50 errText)) s
          in s1\<lparr>hardwareStatus := DISCONNECTED\<rparr>)"

text \<open>One whole call of \<open>connectToIBM\<close>, with nothing else running during the \<open>await\<close>.\<close>

definition connectToIBM :: "(nat \<Rightarrow> stamp) \<Rightarrow> fetch_outcome \<Rightarrow> app_state \<Rightarrow> app_state" where
  "connectToIBM clk r s =
     (case connectToIBM_begin clk s of
        (s1, None) \<Rightarrow> s1
      | (s1, Some tok) \<Rightarrow> connectToIBM_resume clk r s1)"

text \<open>The token input, line 328.\<close>

definition setIbmToken :: "string \<Rightarrow> app_state \<Rightarrow> app_state" where
  "setIbmToken v s = s\<lparr>ibmToken := v\<rparr>"

subsection \<open>Capture\<close>

text \<open>
  What \<open>captureArtifact\<close> reads from its environment: whether \<open>videoRef.current\<close> is set,
  \<open>Date.now()\<close>, the data URL of the canvas and \<open>toLocaleTimeString()\<close>.
\<close>

record capture_env =
  video_present :: bool
  capture_now :: number
  data_url :: string
  capture_time :: string

text \<open>\<open>captureArtifact\<close>, lines 201-219.\<close>

definition captureArtifact :: "capture_env \<Rightarrow> stamp \<Rightarrow> app_state \<Rightarrow> app_state" where
  "captureArtifact env st s =
     (if \<not> video_present env then s
      else
        let meta = \<lparr> art_id = capture_now env, url = data_url env, mode = activeMode s,
                     bits = lastBitstring s, weight = toFixed 4 (qubitWeight s),
                     art_time = capture_time env \<rparr>;
            s1 = s\<lparr>photos := meta # photos s\<rparr>
        in addLog st ''SYS'' (''Registry Locked to Archive: '' @ lastBitstring s) None s1)"

subsection \<open>Runs of the component\<close>

text \<open>
  The things that happen to the state, one per turn of the event loop: user actions,
  the continuation of a pending \<open>fetch\<close>, a timer callback, and any other \<open>addLog\<close> call
  of the component (PIN pad, camera, analysis).
\<close>

datatype event =
    Type_Token string
  | Link_Click "nat \<Rightarrow> stamp"
  | Link_Response "nat \<Rightarrow> stamp" fetch_outcome
  | Teleport_Click "nat \<Rightarrow> stamp" timeout_outcome
  | Timer_Fires timer "nat \<Rightarrow> number" stamp
  | Capture_Click capture_env stamp
  | Clear_Click
  | Other_Log stamp string string "string option"

fun step :: "event \<Rightarrow> app_state \<Rightarrow> app_state" where
  "step (Type_Token v) s = setIbmToken v s"
| "step (Link_Click clk) s = fst (connectToIBM_begin clk s)"
| "step (Link_Response clk r) s = connectToIBM_resume clk r s"
| "step (Teleport_Click clk outcome) s = fst (executeRealTeleport clk outcome s)"
| "step (Timer_Fires t rnd st) s = fire t rnd st s"
| "step (Capture_Click env st) s = captureArtifact env st s"
| "step Clear_Click s = clearLogs s"
| "step (Other_Log st ty m d) s = addLog st ty m d s"

fun run :: "event list \<Rightarrow> app_state \<Rightarrow> app_state" where
  "run [] s = s"
| "run (e # es) s = run es (step e s)"

fun is_timer :: "event \<Rightarrow> bool" where
  "is_timer (Timer_Fires t rnd st) = True"
| "is_timer e = False"

subsection \<open>Notions the properties are stated with\<close>

text \<open>
  The outcomes on which \<open>connectToIBM\<close> completes its success branch: an ok response
  whose body has a string \<open>id\<close>.
\<close>

fun authenticated :: "fetch_outcome \<Rightarrow> bool" where
  "authenticated (Response_Ok (Json_With_Id (JStr i))) = True"
| "authenticated r = False"

text \<open>The characters \<open>0\<close> to \<open>9\<close>.\<close>

definition is_digit :: "char \<Rightarrow> bool" where
  "is_digit c = (c \<in> set ''0123456789'')"

text \<open>
  The weight as the specification words it (section 4.4): \<open>round(x, k digits)\<close> is the
  nearest multiple of \<open>10\<^sup>-\<^sup>k\<close>, the raw weight is the count of 1-bits over the length
  of the register, and the dampening constant is \<open>1 - 1/pi\<^sup>2\<close> with \<open>1/pi\<^sup>2\<close> taken to 8
  decimal digits.
\<close>

definition spec_round :: "nat \<Rightarrow> real \<Rightarrow> real" where
  "spec_round k x = real_of_int (round (x * 10 ^ k)) / 10 ^ k"

definition spec_deriveWeight :: "nat list \<Rightarrow> real" where
  "spec_deriveWeight register =
     spec_round 4
       (real (count_list register 1) / real (length register)
          * (1 - spec_round 8 (1 / pi ^ 2)))"

text \<open>A run in which no timer callback has run: no job has completed.\<close>

fun no_job_completed :: "event list \<Rightarrow> bool" where
  "no_job_completed [] = True"
| "no_job_completed (e # es) = (\<not> is_timer e \<and> no_job_completed es)"

text \<open>
  The status of a response is an integer from 0 to 999 (Fetch standard); the model keeps
  it as a natural number and states the range where a property needs it.
\<close>

fun status_in_range :: "fetch_outcome \<Rightarrow> bool" where
  "status_in_range (Response_Not_Ok code body) = (code \<le> 999)"
| "status_in_range r = True"

text \<open>
  Draws that make \<open>random_bits\<close> yield a given register: above 0.5 where the register
  has a 1, below elsewhere.
\<close>

definition draws_for :: "nat list \<Rightarrow> nat \<Rightarrow> number" where
  "draws_for bs i = (if i < length bs \<and> bs ! i = 1 then 0.75 else 0.25)"

text \<open>
  An entry contains a string when the string occurs, as a run of consecutive
  characters, in its message or in its details.
\<close>

definition entry_contains :: "string \<Rightarrow> log_entry \<Rightarrow> bool" where
  "entry_contains str e =
     (sublist str (msg e) \<or> (case details e of None \<Rightarrow> False | Some d \<Rightarrow> sublist str d))"

subsection \<open>Concrete inputs\<close>

text \<open>States and environment values on which the properties below are evaluated.\<close>

definition example_stamp :: stamp where
  "example_stamp = \<lparr> date_now = 1700000000000, math_random = 0.25, locale_time = ''10:15:30 AM'' \<rparr>"

definition later_stamp :: stamp where
  "later_stamp = \<lparr> date_now = 1700000004000, math_random = 0.75, locale_time = ''10:15:34 AM'' \<rparr>"

definition full_log_state :: app_state where
  "full_log_state = initial\<lparr>logs := replicate 30 (new_entry example_stamp ''HW'' ''Optic Link: user'' None)\<rparr>"

definition example_clock :: "nat \<Rightarrow> stamp" where
  "example_clock i =
     \<lparr> date_now = 1700000000000 + 1000 * real i, math_random = 0.25,
       locale_time = ''10:15:30 AM'' \<rparr>"

definition example_draws :: "nat \<Rightarrow> number" where
  "example_draws i = (if even i then 0.75 else 0.25)"

definition token_state :: app_state where
  "token_state = initial\<lparr>ibmToken := ''abc''\<rparr>"

definition ready_state :: app_state where
  "ready_state =
     initial\<lparr>ibmToken := ''abc'', ibmAccessToken := JStr ''0123456789abcdef'',
             hardwareStatus := READY\<rparr>"

definition link_events :: "event list" where
  "link_events =
     [Type_Token ''abc'', Link_Click example_clock,
      Link_Response example_clock (Response_Ok (Json_With_Id (JStr ''0123456789abcdef'')))]"

definition example_register :: "nat list" where
  "example_register = [1, 0, 1, 1, 0, 0, 1, 0, 1, 1]"

definition example_capture :: capture_env where
  "example_capture =
     \<lparr> video_present = True, capture_now = 1700000009000,
       data_url = ''data:image/jpeg;base64,AAAA'', capture_time = ''10:15:39 AM'' \<rparr>"

definition pending_job_events :: "event list" where
  "pending_job_events = link_events @ [Teleport_Click example_clock Scheduled]"

definition long_token :: string where
  "long_token = ''0f1e2d3c4b5a69788796a5b4c3d2e1f00f1e2d3c4b5a69788796a5b4c3d2e1f0''"

definition long_token_state :: app_state where
  "long_token_state = initial\<lparr>ibmToken := long_token\<rparr>"

section \<open>Properties\<close>

subsection \<open>Event log\<close>

lemma logs_addLog_call: "logs (addLog_call c s) = push_log (entry_of c) (logs s)"
  by (cases c) (simp add: addLog_def)

lemma length_push_log: "length (push_log e prev) \<le> 30"
  by (simp add: push_log_def)

lemma addLogs_snoc: "addLogs (cs @ [c]) s = addLog_call c (addLogs cs s)"
  by (induction cs arbitrary: s) simp_all

lemma length_logs_addLogs:
  "length (logs s) \<le> 30 \<Longrightarrow> length (logs (addLogs cs s)) \<le> 30"
proof (induction cs arbitrary: s)
  case Nil
  then show ?case by simp
next
  case (Cons c cs)
  have "length (logs (addLog_call c s)) \<le> 30"
    by (simp add: logs_addLog_call length_push_log)
  then show ?case using Cons.IH by simp
qed

lemma hd_logs_addLogs:
  "cs \<noteq> [] \<Longrightarrow> hd (logs (addLogs cs s)) = entry_of (last cs)"
proof (induction cs rule: rev_induct)
  case Nil
  then show ?case by simp
next
  case (snoc c cs)
  show ?case
    by (simp add: addLogs_snoc logs_addLog_call push_log_def)
qed

lemma push_log_full:
  "length prev = 30 \<Longrightarrow> push_log e prev = e # butlast prev"
  by (simp add: push_log_def butlast_conv_take)

lemma push_log_room:
  "length prev < 30 \<Longrightarrow> push_log e prev = e # prev"
  by (simp add: push_log_def)

text \<open>
  C8. Starting from a log of at most 30 entries (the initial log has one), after any
  sequence of \<open>addLog\<close> calls the log holds at most 30 entries; after at least one call
  its first entry is the entry of the latest call; each call puts its entry in front of
  the previous log, keeping all of it while there is room and dropping exactly its last
  (oldest) entry once it holds 30.
\<close>

theorem event_log_bounded_newest_first:
  "(length (logs s) \<le> 30 \<longrightarrow> length (logs (addLogs cs s)) \<le> 30)
   \<and> length (logs (addLog st ty m d s)) \<le> 30
   \<and> (cs \<noteq> [] \<longrightarrow> hd (logs (addLogs cs s)) = entry_of (last cs))
   \<and> (length (logs s) < 30 \<longrightarrow>
        logs (addLog st ty m d s) = new_entry st ty m d # logs s)
   \<and> (length (logs s) = 30 \<longrightarrow>
        logs (addLog st ty m d s) = new_entry st ty m d # butlast (logs s))"
  by (simp add: length_logs_addLogs hd_logs_addLogs addLog_def length_push_log
      push_log_full push_log_room)

theorem event_log_bounded_newest_first_witness:
  "length (logs full_log_state) = 30
   \<and> length (logs (addLogs [(example_stamp, ''SEC'', ''Nexus Handshake: Verified.'', None),
          (later_stamp, ''ERR'', ''Invalid Hash.'', None)] full_log_state)) \<le> 30
   \<and> hd (logs (addLogs [(example_stamp, ''SEC'', ''Nexus Handshake: Verified.'', None),
          (later_stamp, ''ERR'', ''Invalid Hash.'', None)] full_log_state))
       = new_entry later_stamp ''ERR'' ''Invalid Hash.'' None
   \<and> logs (addLog later_stamp ''ERR'' ''Invalid Hash.'' None full_log_state)
       = new_entry later_stamp ''ERR'' ''Invalid Hash.'' None
         # replicate 29 (new_entry example_stamp ''HW'' ''Optic Link: user'' None)
   \<and> length (logs initial) < 30
   \<and> logs (addLog later_stamp ''ERR'' ''Invalid Hash.'' None initial)
       = new_entry later_stamp ''ERR'' ''Invalid Hash.'' None # logs initial"
  using event_log_bounded_newest_first
          [of full_log_state
              "[(example_stamp, ''SEC'', ''Nexus Handshake: Verified.'', None),
                (later_stamp, ''ERR'', ''Invalid Hash.'', None)]"
              later_stamp "''ERR''" "''Invalid Hash.''" None]
        event_log_bounded_newest_first
          [of initial "[]" later_stamp "''ERR''" "''Invalid Hash.''" None]
  by (simp add: full_log_state_def initial_def butlast_conv_take)

subsection \<open>Authentication\<close>

lemma logs_addLog [simp]:
  "logs (addLog st ty m d s) = push_log (new_entry st ty m d) (logs s)"
  by (simp add: addLog_def)

lemma addLog_fields [simp]:
  "hardwareStatus (addLog st ty m d s) = hardwareStatus s"
  "ibmToken (addLog st ty m d s) = ibmToken s"
  "ibmAccessToken (addLog st ty m d s) = ibmAccessToken s"
  "localRegister (addLog st ty m d s) = localRegister s"
  "lastBitstring (addLog st ty m d s) = lastBitstring s"
  "qubitWeight (addLog st ty m d s) = qubitWeight s"
  "isTeleporting (addLog st ty m d s) = isTeleporting s"
  "photos (addLog st ty m d s) = photos s"
  "activeMode (addLog st ty m d s) = activeMode s"
  by (simp_all add: addLog_def)

lemma hd_push_log [simp]: "hd (push_log e prev) = e"
  by (simp add: push_log_def)

lemma take2_push_log: "take 2 (push_log e (push_log e' prev)) = [e, e']"
  by (simp add: push_log_def take_Cons')

text \<open>
  C6. When the credential is empty, \<open>connectToIBM\<close> sends no request and changes the
  state in one place only: the entry \<open>ERR, Qiskit Token Required.\<close> is put in front of
  the log. The status, the stored session identifier and the credential are as before
  the call.
\<close>

theorem connectToIBM_empty_credential:
  "ibmToken s = [] \<Longrightarrow>
     connectToIBM clk r s
       = s\<lparr>logs := push_log (new_entry (clk 0) ''ERR'' ''Qiskit Token Required.'' None) (logs s)\<rparr>
     \<and> snd (connectToIBM_begin clk s) = None
     \<and> hardwareStatus (connectToIBM clk r s) = hardwareStatus s
     \<and> ibmAccessToken (connectToIBM clk r s) = ibmAccessToken s
     \<and> ibmToken (connectToIBM clk r s) = ibmToken s
     \<and> hd (logs (connectToIBM clk r s)) = new_entry (clk 0) ''ERR'' ''Qiskit Token Required.'' None"
  by (simp add: connectToIBM_def connectToIBM_begin_def addLog_def)

theorem connectToIBM_empty_credential_witness:
  "ibmToken initial = []
   \<and> hardwareStatus (connectToIBM example_clock Fetch_Failed initial) = DISCONNECTED
   \<and> ibmAccessToken (connectToIBM example_clock Fetch_Failed initial) = JNull
   \<and> map msg (logs (connectToIBM example_clock Fetch_Failed initial))
       = [''Qiskit Token Required.'', ''Quantum Kernel Locked. Enter PIN.'']"
  using connectToIBM_empty_credential [of initial example_clock Fetch_Failed]
  by (simp add: initial_def push_log_def new_entry_def)

text \<open>
  C5. With a non-empty credential, when the external call answers ok with a string
  identifier \<open>i\<close>, \<open>connectToIBM\<close> ends with \<open>i\<close> stored in \<open>ibmAccessToken\<close>, the status
  READY, and the entry \<open>IBM, Authentication Successful.\<close> first in the log, its details
  showing the first 8 characters of \<open>i\<close>.
\<close>

theorem connectToIBM_success:
  "ibmToken s \<noteq> [] \<Longrightarrow>
     ibmAccessToken (connectToIBM clk (Response_Ok (Json_With_Id (JStr i))) s) = JStr i
     \<and> hardwareStatus (connectToIBM clk (Response_Ok (Json_With_Id (JStr i))) s) = READY
     \<and> hd (logs (connectToIBM clk (Response_Ok (Json_With_Id (JStr i))) s))
         = new_entry (clk 1) ''IBM'' ''Authentication Successful.''
             (Some (''Access_ID: '' @ take 8 i @ ''...''))
     \<and> ibmToken (connectToIBM clk (Response_Ok (Json_With_Id (JStr i))) s) = ibmToken s"
  by (simp add: connectToIBM_def connectToIBM_begin_def connectToIBM_resume_def)

theorem connectToIBM_success_witness:
  "ibmToken token_state \<noteq> []
   \<and> ibmAccessToken (connectToIBM example_clock
         (Response_Ok (Json_With_Id (JStr ''0123456789abcdef''))) token_state)
       = JStr ''0123456789abcdef''
   \<and> hardwareStatus (connectToIBM example_clock
         (Response_Ok (Json_With_Id (JStr ''0123456789abcdef''))) token_state) = READY
   \<and> details (hd (logs (connectToIBM example_clock
         (Response_Ok (Json_With_Id (JStr ''0123456789abcdef''))) token_state)))
       = Some ''Access_ID: 01234567...''"
  using connectToIBM_success [of token_state example_clock "''0123456789abcdef''"]
  by (simp add: token_state_def initial_def new_entry_def)

lemma connect_catch_status [simp]: "hardwareStatus (connect_catch clk s) = DISCONNECTED"
  by (simp add: connect_catch_def)

lemma connect_catch_logs:
  "take 2 (logs (connect_catch clk s))
     = [new_entry (clk 2) ''DEBUG'' ''Browser blocked cross-origin request to IBM Servers.'' None,
        new_entry (clk 1) ''ERR'' ''IBM Bridge Blocked (CORS/Network)'' None]"
  by (simp add: connect_catch_def take2_push_log)

lemma resume_failure_status:
  "\<not> authenticated r \<Longrightarrow> hardwareStatus (connectToIBM_resume clk r s) = DISCONNECTED"
  by (cases r rule: authenticated.cases)
     (simp_all add: connectToIBM_resume_def split: option.split)

lemma resume_failure_logs:
  "\<not> authenticated r \<Longrightarrow>
   (case r of
      Response_Not_Ok code (Some errText) \<Rightarrow>
        hd (logs (connectToIBM_resume clk r s))
          = new_entry (clk 1) ''ERR'' (''IBM Rejected Token ['' @ show_nat code @ '']'')
              (Some (take 50 errText))
    | _ \<Rightarrow>
        take 2 (logs (connectToIBM_resume clk r s))
          = [new_entry (clk 2) ''DEBUG''
               ''Browser blocked cross-origin request to IBM Servers.'' None,
             new_entry (clk 1) ''ERR'' ''IBM Bridge Blocked (CORS/Network)'' None])"
  by (cases r rule: authenticated.cases)
     (simp_all add: connectToIBM_resume_def connect_catch_logs split: option.split)

text \<open>
  C4. With a non-empty credential, every outcome of the external call other than an ok
  response with a string identifier leaves the status DISCONNECTED. A rejection (a
  response that is not ok, with body \<open>errText\<close>) puts the entry
  \<open>ERR, IBM Rejected Token [code]\<close> first in the log, with the first 50 characters of
  \<open>errText\<close> as details; a transport failure puts the entries
  \<open>ERR, IBM Bridge Blocked (CORS/Network)\<close> and then \<open>DEBUG, Browser blocked ...\<close> in
  front of the log. Every outcome yields a state: nothing escapes to the caller.
\<close>

theorem connectToIBM_failure:
  "ibmToken s \<noteq> [] \<Longrightarrow>
     (\<not> authenticated r \<longrightarrow> hardwareStatus (connectToIBM clk r s) = DISCONNECTED)
     \<and> hd (logs (connectToIBM clk (Response_Not_Ok code (Some errText)) s))
         = new_entry (clk 1) ''ERR'' (''IBM Rejected Token ['' @ show_nat code @ '']'')
             (Some (take 50 errText))
     \<and> take 2 (logs (connectToIBM clk Fetch_Failed s))
         = [new_entry (clk 2) ''DEBUG''
              ''Browser blocked cross-origin request to IBM Servers.'' None,
            new_entry (clk 1) ''ERR'' ''IBM Bridge Blocked (CORS/Network)'' None]"
  using resume_failure_logs [of Fetch_Failed clk]
    resume_failure_logs [of "Response_Not_Ok code (Some errText)" clk]
  by (simp add: connectToIBM_def connectToIBM_begin_def resume_failure_status)

theorem connectToIBM_failure_witness:
  "ibmToken token_state \<noteq> []
   \<and> \<not> authenticated (Response_Not_Ok 401 (Some ''Unauthorized''))
   \<and> hardwareStatus (connectToIBM example_clock (Response_Not_Ok 401 (Some ''Unauthorized'')) token_state)
       = DISCONNECTED
   \<and> hd (logs (connectToIBM example_clock (Response_Not_Ok 401 (Some ''Unauthorized'')) token_state))
       = new_entry (example_clock 1) ''ERR'' ''IBM Rejected Token [401]'' (Some ''Unauthorized'')
   \<and> hardwareStatus (connectToIBM example_clock Fetch_Failed token_state) = DISCONNECTED
   \<and> map msg (take 2 (logs (connectToIBM example_clock Fetch_Failed token_state)))
       = [''Browser blocked cross-origin request to IBM Servers.'',
          ''IBM Bridge Blocked (CORS/Network)'']"
  using connectToIBM_failure
          [of token_state "Response_Not_Ok 401 (Some ''Unauthorized'')" example_clock 401
              "''Unauthorized''"]
        connectToIBM_failure [of token_state Fetch_Failed example_clock 401 "''Unauthorized''"]
  by (simp add: token_state_def initial_def show_nat.simps digit_char_def new_entry_def)

subsection \<open>Job execution\<close>

lemma length_random_bits: "length (random_bits rnd) = 10"
  by (simp add: random_bits_def BIT_COUNT_def)

lemma set_random_bits: "set (random_bits rnd) \<subseteq> {0, 1}"
  unfolding random_bits_def by (rule subsetI) auto

lemma show_nat_0: "show_nat 0 = ''0''"
  by (simp add: show_nat.simps [of 0] digit_char_def)

lemma show_nat_1: "show_nat (Suc 0) = ''1''"
  by (simp add: show_nat.simps [of "Suc 0"] digit_char_def)

lemma show_nat_bit: "b \<in> {0, 1} \<Longrightarrow> show_nat b = [if b = 1 then CHR ''1'' else CHR ''0'']"
  by (auto simp: show_nat_0 show_nat_1)

lemma join_bits_digits:
  "set bs \<subseteq> {0, 1} \<Longrightarrow> join_bits bs = map (\<lambda>b. if b = 1 then CHR ''1'' else CHR ''0'') bs"
  by (induction bs) (simp_all add: join_bits_def show_nat_bit)

lemma fire_local_fields:
  "localRegister (local_collapse rnd st s) = random_bits rnd"
  "lastBitstring (local_collapse rnd st s) = join_bits (random_bits rnd)"
  "qubitWeight (local_collapse rnd st s) = deriveWeight (random_bits rnd)"
  "hardwareStatus (local_collapse rnd st s) = hardwareStatus s"
  "ibmToken (local_collapse rnd st s) = ibmToken s"
  "ibmAccessToken (local_collapse rnd st s) = ibmAccessToken s"
  by (simp_all add: local_collapse_def Let_def)

lemma fire_remote_fields:
  "localRegister (teleport_resolve rnd st s) = random_bits rnd"
  "lastBitstring (teleport_resolve rnd st s) = join_bits (random_bits rnd)"
  "qubitWeight (teleport_resolve rnd st s) = deriveWeight (random_bits rnd)"
  "hardwareStatus (teleport_resolve rnd st s) = READY"
  "ibmToken (teleport_resolve rnd st s) = ibmToken s"
  "ibmAccessToken (teleport_resolve rnd st s) = ibmAccessToken s"
  by (simp_all add: teleport_resolve_def Let_def)

lemma executeRealTeleport_local:
  "hardwareStatus s \<noteq> READY \<Longrightarrow>
   executeRealTeleport clk outcome s
     = ((addLog (clk 0) ''WARN'' ''Using Local Simulation (No IBM Link).'' None s)
          \<lparr>isTeleporting := True\<rparr>,
        case outcome of Scheduled \<Rightarrow> Some Local_Collapse | Thrown \<Rightarrow> None)"
  by (cases outcome) (simp_all add: executeRealTeleport_def runLocalSimulation_def)

lemma nth_random_bits:
  "i < 10 \<Longrightarrow> random_bits rnd ! i = (if rnd i > 0.5 then 1 else 0)"
  by (simp add: random_bits_def BIT_COUNT_def)

lemma random_bits_draws_for:
  assumes "length bs = 10" and "set bs \<subseteq> {0, 1}"
  shows "random_bits (draws_for bs) = bs"
proof (rule nth_equalityI)
  show "length (random_bits (draws_for bs)) = length bs"
    using assms(1) by (simp add: length_random_bits)
next
  fix i
  assume "i < length (random_bits (draws_for bs))"
  then have i: "i < 10"
    by (simp add: length_random_bits)
  then have inside: "i < length bs"
    using assms(1) by simp
  then have "bs ! i \<in> set bs"
    by (rule nth_mem)
  then have "bs ! i = 0 \<or> bs ! i = 1"
    using assms(2) by blast
  then show "random_bits (draws_for bs) ! i = bs ! i"
    using i inside by (auto simp: nth_random_bits draws_for_def)
qed

lemma executeRealTeleport_remote:
  "hardwareStatus s = READY \<Longrightarrow>
   executeRealTeleport clk Scheduled s
     = (addLog (clk 0) ''QASM'' (''Zenith Key Active: '' @ PARITY_KEY) None
          (s\<lparr>isTeleporting := True, hardwareStatus := BUSY\<rparr>), Some Teleport_Resolve)"
  by (simp add: executeRealTeleport_def)

lemma executeRealTeleport_thrown:
  "hardwareStatus s = READY \<Longrightarrow>
   executeRealTeleport clk Thrown s
     = (addLog (clk 1) ''ERR'' ''Job Pipeline Interrupted.'' None
         ((addLog (clk 0) ''QASM'' (''Zenith Key Active: '' @ PARITY_KEY) None
            (s\<lparr>isTeleporting := True, hardwareStatus := BUSY\<rparr>))
          \<lparr>isTeleporting := False, hardwareStatus := READY\<rparr>), None)"
  by (simp add: executeRealTeleport_def)

lemma uncaught_local_throw:
  "executeRealTeleport_rejects outcome s \<Longrightarrow>
     snd (executeRealTeleport clk outcome s) = None
     \<and> isTeleporting (fst (executeRealTeleport clk outcome s))"
  by (simp add: executeRealTeleport_rejects_def executeRealTeleport_local)

text \<open>
  C1 (as amended). When \<open>executeRealTeleport\<close> itself ends, the status is BUSY if the
  call started from READY and scheduled its callback, READY if it started from READY and
  the \<open>catch\<close> block ran, and otherwise what it was: the local path does not write the
  status. The callback of the remote path leaves the status READY in whatever state it
  runs; the callback of the local path leaves the status as it finds it. Hence, when
  nothing else runs between a call and its callback, the status after the callback is
  the status the call started from.
\<close>

theorem job_status:
  "hardwareStatus (fst (executeRealTeleport clk outcome s))
     = (if hardwareStatus s = READY
        then (case outcome of Scheduled \<Rightarrow> BUSY | Thrown \<Rightarrow> READY)
        else hardwareStatus s)
   \<and> snd (executeRealTeleport clk outcome s)
     = (case outcome of
          Scheduled \<Rightarrow>
            Some (if hardwareStatus s = READY then Teleport_Resolve else Local_Collapse)
        | Thrown \<Rightarrow> None)
   \<and> hardwareStatus (fire Teleport_Resolve rnd st s') = READY
   \<and> hardwareStatus (fire Local_Collapse rnd st s') = hardwareStatus s'
   \<and> hardwareStatus (job_completed clk outcome rnd s) = hardwareStatus s"
  by (cases outcome)
     (simp_all add: job_completed_def executeRealTeleport_local executeRealTeleport_remote
       executeRealTeleport_thrown fire_local_fields fire_remote_fields)

text \<open>
  C1 as stated fails. After authenticating, the state reached when the Teleport click
  returns has status BUSY: the callback that sets READY is only scheduled. A second
  click in that state takes the local path, and when its callback has run the status
  is still BUSY.
\<close>

theorem counterexample_busy_after_return:
  "hardwareStatus (fst (executeRealTeleport example_clock Scheduled (run link_events initial))) = BUSY
   \<and> hardwareStatus
        (job_completed example_clock Scheduled example_draws
           (fst (executeRealTeleport example_clock Scheduled (run link_events initial)))) = BUSY"
  by (simp add: link_events_def initial_def setIbmToken_def connectToIBM_begin_def
      connectToIBM_resume_def executeRealTeleport_def job_completed_def
      runLocalSimulation_def local_collapse_def Let_def)

text \<open>
  C3. From status READY, when the \<open>try\<close> block throws, no callback is scheduled, the
  entry \<open>ERR, Job Pipeline Interrupted.\<close> is first in the log, the published register,
  bit string and weight are as before the call, and the status is READY again.
\<close>

theorem remote_failure:
  "hardwareStatus s = READY \<Longrightarrow>
     snd (executeRealTeleport clk Thrown s) = None
     \<and> hardwareStatus (job_completed clk Thrown rnd s) = READY
     \<and> localRegister (job_completed clk Thrown rnd s) = localRegister s
     \<and> lastBitstring (job_completed clk Thrown rnd s) = lastBitstring s
     \<and> qubitWeight (job_completed clk Thrown rnd s) = qubitWeight s
     \<and> isTeleporting (job_completed clk Thrown rnd s) = False
     \<and> hd (logs (job_completed clk Thrown rnd s))
         = new_entry (clk 1) ''ERR'' ''Job Pipeline Interrupted.'' None"
  by (simp add: job_completed_def executeRealTeleport_thrown)

theorem remote_failure_witness:
  "hardwareStatus ready_state = READY
   \<and> hardwareStatus (job_completed example_clock Thrown example_draws ready_state) = READY
   \<and> lastBitstring (job_completed example_clock Thrown example_draws ready_state) = ''0000000000''
   \<and> qubitWeight (job_completed example_clock Thrown example_draws ready_state) = 0.5
   \<and> msg (hd (logs (job_completed example_clock Thrown example_draws ready_state)))
       = ''Job Pipeline Interrupted.''"
  using remote_failure [of ready_state example_clock example_draws]
  by (simp add: ready_state_def initial_def new_entry_def)

text \<open>
  C7. A job on the local path (\<open>executeRealTeleport\<close> from a status other than READY,
  or \<open>runLocalSimulation\<close> from any state) whose callback is scheduled publishes, when
  the callback runs, a register drawn by that job: exactly 10 digits, digit \<open>i\<close> being 1
  when the \<open>i\<close>-th draw of \<open>Math.random()\<close> is above 0.5 and 0 otherwise, so that every
  register of 10 binary digits is the outcome of some draws; and it publishes the text
  of that register, 10 characters \<open>0\<close>/\<open>1\<close>. The status, the credential and the session
  identifier are never written on the local path, neither at the call nor in the
  callback, whether or not the callback is scheduled.
\<close>

theorem local_path:
  "(hardwareStatus s \<noteq> READY \<longrightarrow>
      hardwareStatus (fst (executeRealTeleport clk outcome s)) = hardwareStatus s
      \<and> ibmToken (fst (executeRealTeleport clk outcome s)) = ibmToken s
      \<and> ibmAccessToken (fst (executeRealTeleport clk outcome s)) = ibmAccessToken s
      \<and> hardwareStatus (job_completed clk outcome rnd s) = hardwareStatus s
      \<and> ibmToken (job_completed clk outcome rnd s) = ibmToken s
      \<and> ibmAccessToken (job_completed clk outcome rnd s) = ibmAccessToken s
      \<and> snd (executeRealTeleport clk Scheduled s) = Some Local_Collapse
      \<and> localRegister (job_completed clk Scheduled rnd s) = random_bits rnd
      \<and> lastBitstring (job_completed clk Scheduled rnd s) = join_bits (random_bits rnd))
   \<and> localRegister (local_job_completed Scheduled rnd st s) = random_bits rnd
   \<and> length (random_bits rnd) = 10
   \<and> set (random_bits rnd) \<subseteq> {0, 1}
   \<and> (i < 10 \<longrightarrow> random_bits rnd ! i = (if rnd i > 0.5 then 1 else 0))
   \<and> (length bs = 10 \<and> set bs \<subseteq> {0, 1} \<longrightarrow> random_bits (draws_for bs) = bs)
   \<and> lastBitstring (local_job_completed Scheduled rnd st s)
       = map (\<lambda>b. if b = 1 then CHR ''1'' else CHR ''0'') (random_bits rnd)
   \<and> hardwareStatus (local_job_completed outcome rnd st s) = hardwareStatus s
   \<and> ibmToken (local_job_completed outcome rnd st s) = ibmToken s
   \<and> ibmAccessToken (local_job_completed outcome rnd st s) = ibmAccessToken s"
proof -
  have frame:
    "hardwareStatus (local_job_completed outcome rnd st s) = hardwareStatus s"
    "ibmToken (local_job_completed outcome rnd st s) = ibmToken s"
    "ibmAccessToken (local_job_completed outcome rnd st s) = ibmAccessToken s"
    by (cases outcome;
        simp add: local_job_completed_def runLocalSimulation_def fire_local_fields)+
  have call:
    "hardwareStatus (fst (executeRealTeleport clk outcome s)) = hardwareStatus s"
    "ibmToken (fst (executeRealTeleport clk outcome s)) = ibmToken s"
    "ibmAccessToken (fst (executeRealTeleport clk outcome s)) = ibmAccessToken s"
    "hardwareStatus (job_completed clk outcome rnd s) = hardwareStatus s"
    "ibmToken (job_completed clk outcome rnd s) = ibmToken s"
    "ibmAccessToken (job_completed clk outcome rnd s) = ibmAccessToken s"
    if "hardwareStatus s \<noteq> READY"
    using that
    by (cases outcome;
        simp add: job_completed_def executeRealTeleport_local fire_local_fields)+
  have published:
    "snd (executeRealTeleport clk Scheduled s) = Some Local_Collapse"
    "localRegister (job_completed clk Scheduled rnd s) = random_bits rnd"
    "lastBitstring (job_completed clk Scheduled rnd s) = join_bits (random_bits rnd)"
    if "hardwareStatus s \<noteq> READY"
    using that
    by (simp_all add: job_completed_def executeRealTeleport_local fire_local_fields)
  have alone:
    "localRegister (local_job_completed Scheduled rnd st s) = random_bits rnd"
    "lastBitstring (local_job_completed Scheduled rnd st s)
       = map (\<lambda>b. if b = 1 then CHR ''1'' else CHR ''0'') (random_bits rnd)"
    by (simp_all add: local_job_completed_def runLocalSimulation_def fire_local_fields
        join_bits_digits [OF set_random_bits])
  show ?thesis
    using frame call published alone length_random_bits [of rnd] set_random_bits [of rnd]
      nth_random_bits [of i rnd] random_bits_draws_for [of bs]
    by blast
qed

theorem local_path_witness:
  "hardwareStatus initial \<noteq> READY
   \<and> localRegister (job_completed example_clock Scheduled example_draws initial)
       = [1, 0, 1, 0, 1, 0, 1, 0, 1, 0]
   \<and> lastBitstring (job_completed example_clock Scheduled example_draws initial) = ''1010101010''
   \<and> hardwareStatus (job_completed example_clock Scheduled example_draws initial) = DISCONNECTED
   \<and> ibmToken (job_completed example_clock Scheduled example_draws initial) = []
   \<and> ibmAccessToken (job_completed example_clock Scheduled example_draws initial) = JNull
   \<and> (3 :: nat) < 10 \<and> random_bits example_draws ! 3 = 0
   \<and> length example_register = 10 \<and> set example_register \<subseteq> {0, 1}
   \<and> localRegister
         (job_completed example_clock Scheduled (draws_for example_register) initial)
       = [1, 0, 1, 1, 0, 0, 1, 0, 1, 1]"
proof -
  have h: "hardwareStatus initial \<noteq> READY"
    by (simp add: initial_def)
  have draws: "random_bits example_draws = [1, 0, 1, 0, 1, 0, 1, 0, 1, 0]"
    by (simp add: random_bits_def BIT_COUNT_def example_draws_def upt_conv_Cons)
  have joined: "join_bits [Suc 0, 0, Suc 0, 0, Suc 0, 0, Suc 0, 0, Suc 0, 0] = ''1010101010''"
    by (simp add: join_bits_def show_nat_0 show_nat_1)
  have init: "ibmToken initial = []" "ibmAccessToken initial = JNull"
    "hardwareStatus initial = DISCONNECTED"
    by (simp_all add: initial_def)
  have shape: "length example_register = 10" "set example_register \<subseteq> {0, 1}"
    by (simp_all add: example_register_def)
  have third: "example_draws 3 = 0.25"
    by (simp add: example_draws_def)
  from local_path [of initial example_clock Scheduled example_draws "example_clock 2" 3
      example_register] h shape
  have first: "localRegister (job_completed example_clock Scheduled example_draws initial)
        = random_bits example_draws"
    and bitstring: "lastBitstring (job_completed example_clock Scheduled example_draws initial)
        = join_bits (random_bits example_draws)"
    and frame: "hardwareStatus (job_completed example_clock Scheduled example_draws initial)
        = hardwareStatus initial"
      "ibmToken (job_completed example_clock Scheduled example_draws initial)
        = ibmToken initial"
      "ibmAccessToken (job_completed example_clock Scheduled example_draws initial)
        = ibmAccessToken initial"
    and digit: "random_bits example_draws ! 3 = (if example_draws 3 > 0.5 then 1 else 0)"
    and onto: "random_bits (draws_for example_register) = example_register"
    by simp_all
  from local_path [of initial example_clock Scheduled "draws_for example_register"
      "example_clock 2" 3 example_register] h
  have second: "localRegister
        (job_completed example_clock Scheduled (draws_for example_register) initial)
        = random_bits (draws_for example_register)"
    by simp
  have final: "localRegister
        (job_completed example_clock Scheduled (draws_for example_register) initial)
        = [1, 0, 1, 1, 0, 0, 1, 0, 1, 1]"
    unfolding second onto by (simp add: example_register_def)
  show ?thesis
    using h shape
    by (simp add: first bitstring frame digit third final draws joined init)
qed


subsection \<open>Decimal text\<close>

lemma digit_char_is_digit: "d < 10 \<Longrightarrow> is_digit (digit_char d)"
proof -
  assume "d < 10"
  then have "d \<in> {0, 1, 2, 3, 4, 5, 6, 7, 8, 9}" by auto
  then show ?thesis by (auto simp: is_digit_def digit_char_def)
qed

lemma digit_value_digit_char: "d < 10 \<Longrightarrow> digit_value (digit_char d) = d"
proof -
  assume "d < 10"
  then have "d \<in> {0, 1, 2, 3, 4, 5, 6, 7, 8, 9}" by auto
  then show ?thesis by (auto simp: digit_value_def digit_char_def)
qed

lemma show_nat_digits: "\<forall>c \<in> set (show_nat n). is_digit c"
proof (induction n rule: show_nat.induct)
  case (1 n)
  show ?case
  proof (cases "n < 10")
    case True
    then show ?thesis by (simp add: show_nat.simps [of n] digit_char_is_digit)
  next
    case False
    then show ?thesis using 1
      by (simp add: show_nat.simps [of n] digit_char_is_digit)
  qed
qed

lemma show_nat_not_Nil: "show_nat n \<noteq> []"
  by (simp add: show_nat.simps [of n])

lemma digits_value_snoc: "digits_value (ds @ [c]) = 10 * digits_value ds + digit_value c"
  by (simp add: digits_value_def)

lemma digits_value_show_nat: "digits_value (show_nat n) = n"
proof (induction n rule: show_nat.induct)
  case (1 n)
  show ?case
  proof (cases "n < 10")
    case True
    then show ?thesis
      by (simp add: show_nat.simps [of n] digits_value_def digit_value_digit_char)
  next
    case False
    then have "digits_value (show_nat (n div 10)) = n div 10" using 1 by simp
    with False show ?thesis
      by (simp add: show_nat.simps [of n] digits_value_snoc digit_value_digit_char)
  qed
qed

lemma length_show_nat: "0 < f \<Longrightarrow> n < 10 ^ f \<Longrightarrow> length (show_nat n) \<le> f"
proof (induction n arbitrary: f rule: show_nat.induct)
  case (1 n)
  show ?case
  proof (cases "n < 10")
    case True
    then show ?thesis using "1.prems" by (simp add: show_nat.simps [of n])
  next
    case False
    obtain g where g: "f = Suc g" using "1.prems"(1) by (cases f) auto
    have "g \<noteq> 0" using False "1.prems"(2) g by (cases g) auto
    moreover have "n div 10 < 10 ^ g" using "1.prems"(2) g
      by (simp add: less_mult_imp_div_less mult.commute)
    ultimately have "length (show_nat (n div 10)) \<le> g"
      using "1.IH" [of g] False by simp
    then show ?thesis using False g by (simp add: show_nat.simps [of n])
  qed
qed

lemma digit_value_zero: "digit_value CHR ''0'' = 0"
  by (simp add: digit_value_def)

lemma digits_value_replicate_zero:
  "digits_value (replicate k CHR ''0'' @ ds) = digits_value ds"
proof (induction k)
  case 0
  then show ?case by simp
next
  case (Suc k)
  have "foldl (\<lambda>a c. 10 * a + digit_value c) 0 (CHR ''0'' # replicate k CHR ''0'' @ ds)
        = foldl (\<lambda>a c. 10 * a + digit_value c) 0 (replicate k CHR ''0'' @ ds)"
    by (simp add: digit_value_zero)
  then show ?case using Suc by (simp add: digits_value_def)
qed

lemma digits_value_pad_zeros: "digits_value (pad_zeros f (show_nat n)) = n"
  by (simp add: pad_zeros_def digits_value_replicate_zero digits_value_show_nat)

lemma length_pad_zeros: "0 < f \<Longrightarrow> n < 10 ^ f \<Longrightarrow> length (pad_zeros f (show_nat n)) = f"
  using length_show_nat [of f n] by (simp add: pad_zeros_def)

lemma is_digit_not_point: "is_digit c \<Longrightarrow> c \<noteq> CHR ''.''"
  by (auto simp: is_digit_def)

lemma is_digit_not_minus: "is_digit c \<Longrightarrow> c \<noteq> CHR ''-''"
  by (auto simp: is_digit_def)

lemma unsigned_value_decimal:
  assumes "\<forall>c \<in> set a. is_digit c"
  shows "unsigned_value (a @ ''.'' @ b)
         = real (digits_value a) + real (digits_value b) / 10 ^ length b"
proof -
  have p: "\<forall>c \<in> set a. c \<noteq> CHR ''.''"
    using assms is_digit_not_point by blast
  have "takeWhile (\<lambda>c. c \<noteq> CHR ''.'') (a @ CHR ''.'' # b) = a"
    using p by (simp add: takeWhile_append2)
  moreover have "dropWhile (\<lambda>c. c \<noteq> CHR ''.'') (a @ CHR ''.'' # b) = CHR ''.'' # b"
    using p by (simp add: dropWhile_append2)
  ultimately show ?thesis by (simp add: unsigned_value_def)
qed

lemma split_real: "real (n div 10 ^ f) * 10 ^ f + real (n mod 10 ^ f) = real n"
proof -
  have "real (n div 10 ^ f) * 10 ^ f + real (n mod 10 ^ f)
        = real (n div 10 ^ f * 10 ^ f + n mod 10 ^ f)"
    by simp
  also have "\<dots> = real n"
    by (simp only: div_mult_mod_eq)
  finally show ?thesis .
qed

lemma parseFloat_toFixed:
  assumes "0 \<le> x" and "0 < f"
  shows "parseFloat (toFixed f x) = real_of_int (round (x * 10 ^ f)) / 10 ^ f"
proof -
  define n where "n = nat (round (x * 10 ^ f))"
  define a where "a = show_nat (n div 10 ^ f)"
  define b where "b = pad_zeros f (show_nat (n mod 10 ^ f))"
  have nonneg: "0 \<le> round (x * 10 ^ f)"
    using assms(1) by (simp add: round_def)
  have tf: "toFixed f x = a @ ''.'' @ b"
    using assms by (simp add: toFixed_def n_def a_def b_def Let_def)
  have da: "\<forall>c \<in> set a. is_digit c"
    unfolding a_def by (rule show_nat_digits)
  obtain c cs where acs: "a = c # cs"
    using show_nat_not_Nil [of "n div 10 ^ f"] by (cases a) (auto simp: a_def)
  have "c \<noteq> CHR ''-''"
    using da acs is_digit_not_minus by auto
  then have "parseFloat (a @ ''.'' @ b) = unsigned_value (a @ ''.'' @ b)"
    by (simp add: parseFloat_def acs)
  also have "\<dots> = real (digits_value a) + real (digits_value b) / 10 ^ length b"
    using da by (rule unsigned_value_decimal)
  also have "\<dots> = real (n div 10 ^ f) + real (n mod 10 ^ f) / 10 ^ f"
    using assms(2) by (simp add: a_def b_def digits_value_show_nat digits_value_pad_zeros
        length_pad_zeros)
  also have "\<dots> = (real (n div 10 ^ f) * 10 ^ f + real (n mod 10 ^ f)) / 10 ^ f"
    by (simp add: add_divide_distrib)
  also have "real (n div 10 ^ f) * 10 ^ f + real (n mod 10 ^ f) = real n"
    by (rule split_real)
  also have "real n = real_of_int (round (x * 10 ^ f))"
    using nonneg by (simp add: n_def)
  finally show ?thesis using tf by simp
qed

lemma round_inv_pi_sq: "round (1 / Math_PI ^ 2 * 10 ^ 8) = 10132118"
  unfolding Math_PI_def round_def
  by (rule floor_unique) (simp_all add: field_simps)

lemma parseFloat_PI_SQUARED_INV: "parseFloat PI_SQUARED_INV = 10132118 / 10 ^ 8"
proof -
  have "parseFloat PI_SQUARED_INV = real_of_int (round (1 / Math_PI ^ 2 * 10 ^ 8)) / 10 ^ 8"
    unfolding PI_SQUARED_INV_def by (rule parseFloat_toFixed) (simp_all add: Math_PI_def)
  also have "round (1 / Math_PI ^ 2 * 10 ^ 8) = 10132118"
    by (rule round_inv_pi_sq)
  finally show ?thesis by simp
qed

lemma show_nat_eval: "show_nat 10132118 = ''10132118''" "show_nat 5000 = ''5000''"
  by (simp_all add: show_nat.simps digit_char_def)

lemma PI_SQUARED_INV_text: "PI_SQUARED_INV = ''0.10132118''"
proof -
  have "round (100000000 / Math_PI ^ 2) = 10132118"
    using round_inv_pi_sq by simp
  then show ?thesis
    by (simp add: PI_SQUARED_INV_def toFixed_def show_nat_eval show_nat_0 pad_zeros_def)
qed

lemma toFixed_half: "toFixed 4 0.5 = ''0.5000''"
  by (simp add: toFixed_def show_nat_eval show_nat_0 pad_zeros_def)

lemma deriveWeight_eq:
  "deriveWeight bs
   = real_of_int (round (real (sum_list bs) / 10 * (1 - 10132118 / 10 ^ 8) * 10 ^ 4)) / 10 ^ 4"
proof -
  have "0 \<le> real (sum_list bs) / 10 * (1 - 10132118 / 10 ^ 8)"
    by simp
  then show ?thesis
    by (simp add: deriveWeight_def BIT_COUNT_def parseFloat_PI_SQUARED_INV parseFloat_toFixed)
qed

subsection \<open>The constant pi to eight places\<close>

lemma arctan_partial_sums:
  fixes x :: real
  assumes "0 \<le> x" and "x \<le> 1"
  shows "(\<Sum>i<2 * n. (- 1) ^ i * (1 / real (i * 2 + 1) * x ^ (i * 2 + 1))) \<le> arctan x"
    and "arctan x \<le> (\<Sum>i<2 * n + 1. (- 1) ^ i * (1 / real (i * 2 + 1) * x ^ (i * 2 + 1)))"
proof -
  define a where "a = (\<lambda>i. 1 / real (i * 2 + 1) * x ^ (i * 2 + 1))"
  have ax: "\<bar>x\<bar> \<le> 1" using assms by simp
  have zero: "a \<longlonglongrightarrow> 0"
    unfolding a_def using ax by (rule zeroseq_arctan_series)
  have pos: "0 \<le> a i" for i
    using assms by (simp add: a_def)
  have mono: "a (Suc i) \<le> a i" for i
  proof -
    have "x ^ (Suc i * 2 + 1) \<le> x ^ (i * 2 + 1)"
      using assms by (intro power_decreasing) simp_all
    moreover have "1 / real (Suc i * 2 + 1) \<le> 1 / real (i * 2 + 1)"
      by (simp add: field_simps)
    ultimately show ?thesis
      unfolding a_def using assms by (intro mult_mono) simp_all
  qed
  have series: "arctan x = (\<Sum>i. (- 1) ^ i * a i)"
    unfolding a_def using ax by (rule arctan_series)
  show "(\<Sum>i<2 * n. (- 1) ^ i * (1 / real (i * 2 + 1) * x ^ (i * 2 + 1))) \<le> arctan x"
    using summable_Leibniz'(2) [OF zero pos mono, of n] by (simp add: series a_def)
  show "arctan x \<le> (\<Sum>i<2 * n + 1. (- 1) ^ i * (1 / real (i * 2 + 1) * x ^ (i * 2 + 1)))"
    using summable_Leibniz'(4) [OF zero pos mono, of n] by (simp add: series a_def)
qed

lemma pi_between: "3.14159264 < pi" "pi < 3.1415927"
proof -
  have l5: "(6679449362 :: real) / 33837890625 \<le> arctan (1 / 5)"
    using arctan_partial_sums(1) [of "1 / 5" 3] by (simp add: eval_nat_numeral)
  have u5: "arctan (1 / 5) \<le> (24288907 :: real) / 123046875"
    using arctan_partial_sums(2) [of "1 / 5" 2] by (simp add: eval_nat_numeral)
  have l239: "(171362 :: real) / 40955757 \<le> arctan (1 / 239)"
    using arctan_partial_sums(1) [of "1 / 239" 1] by (simp add: eval_nat_numeral)
  have u239: "arctan (1 / 239) \<le> (48941844013 :: real) / 11697168977985"
    using arctan_partial_sums(2) [of "1 / 239" 1] by (simp add: eval_nat_numeral)
  have m: "pi = 16 * arctan (1 / 5) - 4 * arctan (1 / 239)"
    using machin by simp
  show "3.14159264 < pi"
    using l5 u239 unfolding m by simp
  show "pi < 3.1415927"
    using u5 l239 unfolding m by simp
qed

lemma round_inv_pi_squared: "round (1 / pi ^ 2 * 10 ^ 8) = 10132118"
proof -
  have lo: "3.14159264 ^ 2 < pi ^ 2"
    using pi_between(1) by (intro power_strict_mono) simp_all
  have hi: "pi ^ 2 < 3.1415927 ^ 2"
    using pi_between(2) pi_gt_zero by (intro power_strict_mono) simp_all
  have pos: "0 < pi ^ 2" by simp
  have a: "10132118 \<le> 1 / pi ^ 2 * 10 ^ 8 + 1 / 2"
  proof -
    have "(10132118 - 1 / 2) * pi ^ 2 \<le> (10132118 - 1 / 2) * 3.1415927 ^ 2"
      by (rule mult_left_mono [OF less_imp_le [OF hi]]) simp
    also have "\<dots> \<le> 10 ^ 8" by (simp add: power2_eq_square)
    finally show ?thesis using pos by (simp add: field_simps)
  qed
  have b: "1 / pi ^ 2 * 10 ^ 8 + 1 / 2 < 10132119"
  proof -
    have "(10 :: real) ^ 8 < (10132119 - 1 / 2) * 3.14159264 ^ 2"
      by (simp add: power2_eq_square)
    also have "\<dots> \<le> (10132119 - 1 / 2) * pi ^ 2"
      by (rule mult_left_mono [OF less_imp_le [OF lo]]) simp
    finally show ?thesis using pos by (simp add: field_simps)
  qed
  show ?thesis
    unfolding round_def using a b by (intro floor_unique) simp_all
qed

lemma round_damping: "round ((1 - 1 / pi ^ 2) * 10 ^ 4) = 8987"
proof -
  have lo: "3.14159264 ^ 2 < pi ^ 2"
    using pi_between(1) by (intro power_strict_mono) simp_all
  have hi: "pi ^ 2 < 3.1415927 ^ 2"
    using pi_between(2) pi_gt_zero by (intro power_strict_mono) simp_all
  have pos: "0 < pi ^ 2" by simp
  have a: "8987 \<le> (1 - 1 / pi ^ 2) * 10 ^ 4 + 1 / 2"
  proof -
    have "(10 :: real) ^ 4 \<le> (10 ^ 4 + 1 / 2 - 8987) * 3.14159264 ^ 2"
      by (simp add: power2_eq_square)
    also have "\<dots> \<le> (10 ^ 4 + 1 / 2 - 8987) * pi ^ 2"
      by (rule mult_left_mono [OF less_imp_le [OF lo]]) simp
    finally show ?thesis using pos by (simp add: field_simps)
  qed
  have b: "(1 - 1 / pi ^ 2) * 10 ^ 4 + 1 / 2 < 8988"
  proof -
    have "(10 ^ 4 + 1 / 2 - 8988) * pi ^ 2 \<le> (10 ^ 4 + 1 / 2 - 8988) * 3.1415927 ^ 2"
      by (rule mult_left_mono [OF less_imp_le [OF hi]]) simp
    also have "\<dots> < 10 ^ 4" by (simp add: power2_eq_square)
    finally show ?thesis using pos by (simp add: field_simps)
  qed
  show ?thesis
    unfolding round_def using a b by (intro floor_unique) simp_all
qed

subsection \<open>Weight derivation\<close>

lemma sum_list_bits: "set bs \<subseteq> {0, 1} \<Longrightarrow> sum_list bs = count_list bs (1 :: nat)"
  by (induction bs) auto

lemma spec_round_inv_pi_squared: "spec_round 8 (1 / pi ^ 2) = 10132118 / 10 ^ 8"
  unfolding spec_round_def round_inv_pi_squared by simp

lemma spec_round_damping: "spec_round 4 (1 - 1 / pi ^ 2) = 8987 / 10 ^ 4"
  unfolding spec_round_def round_damping by simp

lemma deriveWeight_spec_round:
  "deriveWeight bs = spec_round 4 (real (sum_list bs) / 10 * (1 - 10132118 / 10 ^ 8))"
  unfolding spec_round_def by (rule deriveWeight_eq)

lemma deriveWeight_zeros: "deriveWeight (replicate 10 0) = 0"
  by (simp add: deriveWeight_eq sum_list_replicate)

lemma deriveWeight_ones: "deriveWeight (replicate 10 1) = 8987 / 10 ^ 4"
proof -
  have s: "sum_list (replicate 10 (1 :: nat)) = 10"
    by (simp add: sum_list_replicate)
  have r: "round (real (10 :: nat) / 10 * (1 - 10132118 / 10 ^ 8) * 10 ^ 4) = 8987"
    unfolding round_def by (rule floor_unique) simp_all
  show ?thesis
    unfolding deriveWeight_eq s r by simp
qed

text \<open>
  C2. For every register of 10 digits, each 0 or 1, the weight the program derives is
  the specified one: the count of 1-bits over 10, times \<open>d = 1 - 1/pi\<^sup>2\<close> with
  \<open>1/pi\<^sup>2\<close> rounded to 8 decimal digits, rounded to 4 decimal digits. The derivation is
  a function of the register alone, defined on every register; the all-zero register
  gives 0 and the all-one register gives \<open>round(1 - 1/pi\<^sup>2, 4) = 0.8987\<close>. Both timer
  callbacks publish this weight for the register they publish.
\<close>

theorem deriveWeight_refines_spec:
  "(length bs = 10 \<and> set bs \<subseteq> {0, 1} \<longrightarrow> deriveWeight bs = spec_deriveWeight bs)
   \<and> deriveWeight (replicate 10 0) = 0
   \<and> deriveWeight (replicate 10 1) = spec_round 4 (1 - 1 / pi ^ 2)
   \<and> spec_round 4 (1 - 1 / pi ^ 2) = 0.8987
   \<and> qubitWeight (fire t rnd st s) = deriveWeight (localRegister (fire t rnd st s))"
proof (intro conjI impI)
  assume valid: "length bs = 10 \<and> set bs \<subseteq> {0, 1}"
  then have count: "sum_list bs = count_list bs 1"
    by (simp add: sum_list_bits)
  show "deriveWeight bs = spec_deriveWeight bs"
    unfolding deriveWeight_spec_round spec_deriveWeight_def spec_round_inv_pi_squared count
    using valid by simp
next
  show "deriveWeight (replicate 10 0) = 0"
    by (rule deriveWeight_zeros)
next
  show "deriveWeight (replicate 10 1) = spec_round 4 (1 - 1 / pi ^ 2)"
    unfolding spec_round_damping by (rule deriveWeight_ones)
next
  show "spec_round 4 (1 - 1 / pi ^ 2) = 0.8987"
    unfolding spec_round_damping by simp
next
  show "qubitWeight (fire t rnd st s) = deriveWeight (localRegister (fire t rnd st s))"
    by (cases t) (simp_all add: fire_local_fields fire_remote_fields)
qed

theorem deriveWeight_refines_spec_witness:
  "length example_register = 10 \<and> set example_register \<subseteq> {0, 1}
   \<and> deriveWeight example_register = 0.5392
   \<and> spec_deriveWeight example_register = 0.5392"
proof -
  have shape: "length example_register = 10" "set example_register \<subseteq> {0, 1}"
    by (simp_all add: example_register_def)
  have s: "sum_list example_register = 6"
    by (simp add: example_register_def)
  have r: "round (real (6 :: nat) / 10 * (1 - 10132118 / 10 ^ 8) * 10 ^ 4) = 5392"
    unfolding round_def by (rule floor_unique) simp_all
  have "deriveWeight example_register = 0.5392"
    unfolding deriveWeight_eq s r by simp
  with shape deriveWeight_refines_spec [of example_register] show ?thesis
    by simp
qed

subsection \<open>The published weight at start\<close>

lemma connect_catch_published:
  "lastBitstring (connect_catch clk s) = lastBitstring s"
  "qubitWeight (connect_catch clk s) = qubitWeight s"
  "localRegister (connect_catch clk s) = localRegister s"
  by (simp_all add: connect_catch_def)

lemma connectToIBM_resume_published:
  "lastBitstring (connectToIBM_resume clk r s) = lastBitstring s"
  "qubitWeight (connectToIBM_resume clk r s) = qubitWeight s"
  "localRegister (connectToIBM_resume clk r s) = localRegister s"
  by (simp_all add: connectToIBM_resume_def connect_catch_published Let_def
      split: fetch_outcome.split auth_data.split js_value.split option.split)

lemma executeRealTeleport_published:
  "lastBitstring (fst (executeRealTeleport clk outcome s)) = lastBitstring s"
  "qubitWeight (fst (executeRealTeleport clk outcome s)) = qubitWeight s"
  "localRegister (fst (executeRealTeleport clk outcome s)) = localRegister s"
  by (simp_all add: executeRealTeleport_def runLocalSimulation_def Let_def
      split: timeout_outcome.split)

lemma step_published:
  assumes "\<not> is_timer e"
  shows "lastBitstring (step e s) = lastBitstring s"
    and "qubitWeight (step e s) = qubitWeight s"
    and "localRegister (step e s) = localRegister s"
  using assms
  by (cases e; simp add: setIbmToken_def connectToIBM_begin_def connectToIBM_resume_published
      executeRealTeleport_published captureArtifact_def clearLogs_def)+

lemma run_published:
  "no_job_completed es \<Longrightarrow>
     lastBitstring (run es s) = lastBitstring s \<and> qubitWeight (run es s) = qubitWeight s
     \<and> localRegister (run es s) = localRegister s"
  by (induction es arbitrary: s) (simp_all add: step_published)

lemma captureArtifact_meta:
  "video_present env \<Longrightarrow>
     bits (hd (photos (captureArtifact env st s))) = lastBitstring s
     \<and> weight (hd (photos (captureArtifact env st s))) = toFixed 4 (qubitWeight s)"
  by (simp add: captureArtifact_def)

text \<open>
  C10. At start the published bit string is \<open>0000000000\<close> (the register is all zero)
  and the published weight is 0.5, while the weight derived from that register is 0:
  the two differ. After any run in which no job has completed, an artifact that
  \<open>captureArtifact\<close> records has \<open>bits = 0000000000\<close> and \<open>weight = 0.5000\<close>.
\<close>

theorem initial_weight_not_derived:
  "lastBitstring initial = ''0000000000''
   \<and> localRegister initial = replicate 10 0
   \<and> qubitWeight initial = 0.5
   \<and> deriveWeight (localRegister initial) = 0
   \<and> qubitWeight initial \<noteq> deriveWeight (localRegister initial)
   \<and> (no_job_completed es \<and> video_present env \<longrightarrow>
        bits (hd (photos (captureArtifact env st (run es initial)))) = ''0000000000''
        \<and> weight (hd (photos (captureArtifact env st (run es initial)))) = ''0.5000'')"
proof -
  have init: "lastBitstring initial = ''0000000000''" "localRegister initial = replicate 10 0"
    "qubitWeight initial = 0.5"
    by (simp_all add: initial_def BIT_COUNT_def)
  have "bits (hd (photos (captureArtifact env st (run es initial)))) = ''0000000000''
        \<and> weight (hd (photos (captureArtifact env st (run es initial)))) = ''0.5000''"
    if quiet: "no_job_completed es" and video: "video_present env"
  proof -
    have b: "lastBitstring (run es initial) = lastBitstring initial"
      and w: "qubitWeight (run es initial) = qubitWeight initial"
      using run_published [OF quiet, of initial] by simp_all
    have "toFixed 4 (qubitWeight (run es initial)) = ''0.5000''"
      unfolding w init(3) by (rule toFixed_half)
    then show ?thesis
      using captureArtifact_meta [OF video, of st "run es initial"] b init(1) by simp
  qed
  then show ?thesis
    by (simp add: init deriveWeight_zeros)
qed

theorem initial_weight_not_derived_witness:
  "no_job_completed pending_job_events \<and> video_present example_capture
   \<and> hardwareStatus (run pending_job_events initial) = BUSY
   \<and> bits (hd (photos (captureArtifact example_capture example_stamp
                          (run pending_job_events initial)))) = ''0000000000''
   \<and> weight (hd (photos (captureArtifact example_capture example_stamp
                            (run pending_job_events initial)))) = ''0.5000''"
proof -
  have a: "no_job_completed pending_job_events"
    by (simp add: pending_job_events_def link_events_def)
  have b: "video_present example_capture"
    by (simp add: example_capture_def)
  have c: "hardwareStatus (run pending_job_events initial) = BUSY"
    by (simp add: pending_job_events_def link_events_def initial_def setIbmToken_def
        connectToIBM_begin_def connectToIBM_resume_def executeRealTeleport_def)
  from initial_weight_not_derived [of pending_job_events example_capture example_stamp] a b c
  show ?thesis by simp
qed

subsection \<open>The credential and the log\<close>

lemma connect_catch_logs_cong:
  "logs s = logs s' \<Longrightarrow> logs (connect_catch clk s) = logs (connect_catch clk s')"
  by (simp add: connect_catch_def)

lemma resume_logs_cong:
  "logs s = logs s' \<Longrightarrow>
     logs (connectToIBM_resume clk r s) = logs (connectToIBM_resume clk r s')"
  by (simp add: connectToIBM_resume_def connect_catch_def Let_def
      split: fetch_outcome.split auth_data.split js_value.split option.split)

lemma connectToIBM_logs_cong:
  assumes "ibmToken s \<noteq> []" and "ibmToken s' \<noteq> []" and "logs s = logs s'"
  shows "logs (connectToIBM clk r s) = logs (connectToIBM clk r s')"
proof -
  have "logs (fst (connectToIBM_begin clk s)) = logs (fst (connectToIBM_begin clk s'))"
    using assms by (simp add: connectToIBM_begin_def)
  then have "logs (connectToIBM_resume clk r (fst (connectToIBM_begin clk s)))
             = logs (connectToIBM_resume clk r (fst (connectToIBM_begin clk s')))"
    by (rule resume_logs_cong)
  then show ?thesis
    using assms by (simp add: connectToIBM_def connectToIBM_begin_def)
qed

lemma in_push_log: "e \<in> set (push_log x xs) \<Longrightarrow> e = x \<or> e \<in> set xs"
  using set_take_subset [of 30 "x # xs"] by (auto simp: push_log_def)

lemma logged_by_catch:
  "e \<in> set (logs (connect_catch clk s)) \<Longrightarrow>
     e \<in> set (logs s)
     \<or> e = new_entry (clk 1) ''ERR'' ''IBM Bridge Blocked (CORS/Network)'' None
     \<or> e = new_entry (clk 2) ''DEBUG''
             ''Browser blocked cross-origin request to IBM Servers.'' None"
  by (auto simp: connect_catch_def dest!: in_push_log)

lemma logged_by_resume:
  assumes "e \<in> set (logs (connectToIBM_resume clk r s))"
  shows "e \<in> set (logs s)
     \<or> e = new_entry (clk 1) ''ERR'' ''IBM Bridge Blocked (CORS/Network)'' None
     \<or> e = new_entry (clk 2) ''DEBUG''
             ''Browser blocked cross-origin request to IBM Servers.'' None
     \<or> (\<exists>i. r = Response_Ok (Json_With_Id (JStr i))
            \<and> e = new_entry (clk 1) ''IBM'' ''Authentication Successful.''
                    (Some (''Access_ID: '' @ take 8 i @ ''...'')))
     \<or> (\<exists>code errText. r = Response_Not_Ok code (Some errText)
            \<and> e = new_entry (clk 1) ''ERR'' (''IBM Rejected Token ['' @ show_nat code @ '']'')
                    (Some (take 50 errText)))"
proof (cases "authenticated r")
  case True
  then obtain i where r: "r = Response_Ok (Json_With_Id (JStr i))"
    by (cases r rule: authenticated.cases) simp_all
  then show ?thesis
    using assms by (auto simp: connectToIBM_resume_def dest!: in_push_log)
next
  case False
  show ?thesis
  proof (cases "\<exists>code errText. r = Response_Not_Ok code (Some errText)")
    case True
    then obtain code errText where r: "r = Response_Not_Ok code (Some errText)"
      by blast
    then show ?thesis
      using assms by (auto simp: connectToIBM_resume_def dest!: in_push_log)
  next
    case False
    with \<open>\<not> authenticated r\<close>
    have "connectToIBM_resume clk r s = connect_catch clk s
          \<or> (\<exists>v. connectToIBM_resume clk r s
                 = connect_catch clk (s\<lparr>ibmAccessToken := v, hardwareStatus := READY\<rparr>))"
      by (cases r rule: authenticated.cases)
         (auto simp: connectToIBM_resume_def split: option.split)
    then show ?thesis
      using assms by (auto dest!: logged_by_catch)
  qed
qed

lemma logged_by_connect:
  assumes "ibmToken s \<noteq> []" and "e \<in> set (logs (connectToIBM clk r s))"
  shows "e \<in> set (logs s)
     \<or> e = new_entry (clk 0) ''IBM'' ''Initiating REST Handshake...'' None
     \<or> e = new_entry (clk 1) ''ERR'' ''IBM Bridge Blocked (CORS/Network)'' None
     \<or> e = new_entry (clk 2) ''DEBUG''
             ''Browser blocked cross-origin request to IBM Servers.'' None
     \<or> (\<exists>i. r = Response_Ok (Json_With_Id (JStr i))
            \<and> e = new_entry (clk 1) ''IBM'' ''Authentication Successful.''
                    (Some (''Access_ID: '' @ take 8 i @ ''...'')))
     \<or> (\<exists>code errText. r = Response_Not_Ok code (Some errText)
            \<and> e = new_entry (clk 1) ''ERR'' (''IBM Rejected Token ['' @ show_nat code @ '']'')
                    (Some (take 50 errText)))"
proof -
  let ?s1 = "addLog (clk 0) ''IBM'' ''Initiating REST Handshake...'' None
               (s\<lparr>hardwareStatus := AUTHENTICATING\<rparr>)"
  have "connectToIBM clk r s = connectToIBM_resume clk r ?s1"
    using assms(1) by (simp add: connectToIBM_def connectToIBM_begin_def)
  then have "e \<in> set (logs (connectToIBM_resume clk r ?s1))"
    using assms(2) by simp
  from logged_by_resume [OF this]
  show ?thesis
    by (auto dest!: in_push_log)
qed

lemma too_long_to_contain:
  assumes "length (msg e) \<le> 52"
    and "\<And>d. details e = Some d \<Longrightarrow> length d \<le> 52"
    and "52 < length str"
  shows "\<not> entry_contains str e"
proof
  assume "entry_contains str e"
  then consider "sublist str (msg e)" | d where "details e = Some d" "sublist str d"
    by (auto simp: entry_contains_def split: option.splits)
  then show False
  proof cases
    case 1
    then have "length str \<le> length (msg e)"
      by (rule sublist_length_le)
    then show False using assms(1, 3) by simp
  next
    case 2
    then have "length str \<le> length d"
      using sublist_length_le by blast
    then show False using assms(2) [OF 2(1)] assms(3) by simp
  qed
qed

lemma length_status_text: "code \<le> 999 \<Longrightarrow> length (show_nat code) \<le> 3"
  using length_show_nat [of 3 code] by simp

lemma length_rejection_text:
  "code \<le> 999 \<Longrightarrow> length (''IBM Rejected Token ['' @ show_nat code @ '']'') \<le> 52"
  using length_status_text [of code] by simp

lemma attempt_entries_without_credential:
  assumes long: "52 < length str" and range: "status_in_range r"
    and token: "ibmToken s \<noteq> []"
    and e: "e \<in> set (logs (connectToIBM clk r s))" and inside: "entry_contains str e"
  shows "e \<in> set (logs s)"
proof (rule ccontr)
  assume fresh: "e \<notin> set (logs s)"
  have "length (msg e) \<le> 52 \<and> (\<forall>d. details e = Some d \<longrightarrow> length d \<le> 52)"
    using logged_by_connect [OF token e] fresh range length_rejection_text
    by (auto simp: new_entry_def)
  then have "\<not> entry_contains str e"
    using long by (intro too_long_to_contain) auto
  then show False using inside by simp
qed

text \<open>
  C9 (as amended). For every authentication attempt with a non-empty credential and
  every outcome of the external call: the log the attempt leaves does not depend on the
  credential (same outcome and same log before give the same log after, whatever the
  two credentials are); when the credential is longer than 52 characters and the status
  code is at most 999, every entry of the log after the attempt that contains the full
  credential in its message or details was in the log before the attempt, so no entry
  the attempt writes contains it; the success entry shows the first 8 characters of
  the identifier and the rejection entry the first 50 characters of the body.
\<close>

theorem log_independent_of_credential:
  "(ibmToken s \<noteq> [] \<and> ibmToken s' \<noteq> [] \<and> logs s = logs s' \<longrightarrow>
      logs (connectToIBM clk r s) = logs (connectToIBM clk r s'))
   \<and> (52 < length (ibmToken s) \<and> status_in_range r \<longrightarrow>
        (\<forall>e \<in> set (logs (connectToIBM clk r s)).
           entry_contains (ibmToken s) e \<longrightarrow> e \<in> set (logs s)))
   \<and> details (hd (logs (connectToIBM_resume clk (Response_Ok (Json_With_Id (JStr i))) s)))
       = Some (''Access_ID: '' @ take 8 i @ ''...'')
   \<and> details (hd (logs (connectToIBM_resume clk (Response_Not_Ok code (Some errText)) s)))
       = Some (take 50 errText)"
proof -
  have "e \<in> set (logs s)"
    if "52 < length (ibmToken s)" "status_in_range r"
      "e \<in> set (logs (connectToIBM clk r s))" "entry_contains (ibmToken s) e" for e
  proof -
    have "ibmToken s \<noteq> []"
      using that(1) by auto
    then show ?thesis
      using that by (intro attempt_entries_without_credential [of "ibmToken s" r s e clk])
  qed
  then show ?thesis
    by (simp add: connectToIBM_logs_cong connectToIBM_resume_def new_entry_def)
qed

theorem log_independent_of_credential_witness:
  "52 < length (ibmToken long_token_state)
   \<and> status_in_range (Response_Not_Ok 401 (Some (''Invalid token '' @ long_token)))
   \<and> logs (connectToIBM example_clock
              (Response_Not_Ok 401 (Some (''Invalid token '' @ long_token))) long_token_state)
       \<noteq> []
   \<and> \<not> entry_contains (ibmToken long_token_state)
        (hd (logs (connectToIBM example_clock
                     (Response_Not_Ok 401 (Some (''Invalid token '' @ long_token)))
                     long_token_state)))
   \<and> ibmToken token_state \<noteq> [] \<and> ibmToken long_token_state \<noteq> []
   \<and> ibmToken token_state \<noteq> ibmToken long_token_state
   \<and> logs token_state = logs long_token_state
   \<and> logs (connectToIBM example_clock
              (Response_Not_Ok 401 (Some (''Invalid token '' @ long_token))) token_state)
       = logs (connectToIBM example_clock
                 (Response_Not_Ok 401 (Some (''Invalid token '' @ long_token)))
                 long_token_state)"
proof -
  let ?r = "Response_Not_Ok 401 (Some (''Invalid token '' @ long_token))"
  let ?after = "logs (connectToIBM example_clock ?r long_token_state)"
  have long: "52 < length (ibmToken long_token_state)"
    by (simp add: long_token_state_def long_token_def)
  have range: "status_in_range ?r"
    by simp
  have tokens: "ibmToken token_state \<noteq> []" "ibmToken long_token_state \<noteq> []"
    "ibmToken token_state \<noteq> ibmToken long_token_state"
    "logs token_state = logs long_token_state"
    by (simp_all add: token_state_def long_token_state_def long_token_def)
  have after: "?after
      = [new_entry (example_clock 1) ''ERR'' (''IBM Rejected Token ['' @ show_nat 401 @ '']'')
           (Some (take 50 (''Invalid token '' @ long_token))),
         new_entry (example_clock 0) ''IBM'' ''Initiating REST Handshake...'' None,
         hd (logs initial)]"
    by (simp add: long_token_state_def long_token_def initial_def connectToIBM_def
        connectToIBM_begin_def connectToIBM_resume_def push_log_def)
  have fresh: "hd ?after \<notin> set (logs long_token_state)"
    unfolding after by (simp add: long_token_state_def initial_def new_entry_def)
  have member: "hd ?after \<in> set ?after"
    unfolding after by simp
  from log_independent_of_credential [of long_token_state long_token_state example_clock ?r]
    long range member fresh
  have absent: "\<not> entry_contains (ibmToken long_token_state) (hd ?after)"
    by blast
  from log_independent_of_credential [of token_state long_token_state example_clock ?r] tokens
  have same: "logs (connectToIBM example_clock ?r token_state) = ?after"
    by blast
  have nonempty: "?after \<noteq> []"
    unfolding after by simp
  show ?thesis
    using long range nonempty absent tokens same by simp
qed

text \<open>
  C9 as stated fails: with the credential \<open>abc\<close> and a rejection whose body is
  \<open>Invalid token abc\<close>, the entry logged first has the whole credential in its details.
\<close>

theorem credential_echoed_in_log:
  "ibmToken token_state = ''abc''
   \<and> entry_contains (ibmToken token_state)
        (hd (logs (connectToIBM example_clock (Response_Not_Ok 401 (Some ''Invalid token abc''))
                     token_state)))"
proof -
  have "sublist ''abc'' (''Invalid token '' @ ''abc'' @ [])"
    by (rule sublist_appendI)
  then have "sublist ''abc'' ''Invalid token abc''"
    by simp
  then show ?thesis
    by (simp add: entry_contains_def token_state_def initial_def connectToIBM_def
        connectToIBM_begin_def connectToIBM_resume_def new_entry_def)
qed

end
